theory Spec2Isabelle
  imports Complex_Main "HOL-Library.Multiset" "HOL-Library.Char_ord" "HOL-Library.List_Lexorder"
begin

unbundle bit_operations_syntax

section \<open>Python helpers\<close>

text \<open>
  Python's slice \<^verbatim>\<open>xs[a:b]\<close> with optional, possibly negative bounds: a negative bound
  counts from the end, and every bound is clipped to the range of the list.
\<close>

definition py_index :: "int \<Rightarrow> nat \<Rightarrow> nat" where
  "py_index i n = (if i < 0 then nat (max (i + int n) 0) else min (nat i) n)"

definition py_slice :: "'a list \<Rightarrow> int option \<Rightarrow> int option \<Rightarrow> 'a list" where
  "py_slice xs a b =
     (let lo = (case a of None \<Rightarrow> 0 | Some i \<Rightarrow> py_index i (length xs));
          hi = (case b of None \<Rightarrow> length xs | Some j \<Rightarrow> py_index j (length xs))
      in take (hi - lo) (drop lo xs))"

text \<open>\<^verbatim>\<open>np.bitwise_xor.reduce\<close> on a list of Python integers; the empty reduction is 0.\<close>

definition xor_reduce :: "int list \<Rightarrow> int" where
  "xor_reduce xs = foldl (XOR) 0 xs"

definition is_bit :: "int \<Rightarrow> bool" where
  "is_bit b = (b = 0 \<or> b = 1)"

section \<open>AMDC parameters\<close>

text \<open>
  \<^verbatim>\<open>find_d_and_gamma\<close> tests \<^verbatim>\<open>d * (beta + np.log2(d + 1)) < m_len\<close>. The model reads
  \<^verbatim>\<open>np.log2\<close> as the real logarithm: for integers \<open>d \<ge> 1\<close> the test is then
  \<open>(d + 1) ^ d < 2 ^ (m_len - d * beta)\<close>, a comparison of integer powers, which is what
  \<open>d_too_small\<close> computes. The code computes in 64-bit floating point; the two readings
  part only where \<open>beta\<close> or \<open>d * beta\<close> is about \<open>2 ^ 53\<close> or more, lengths no list
  reaches.
\<close>

definition d_too_small :: "int \<Rightarrow> nat \<Rightarrow> nat \<Rightarrow> bool" where
  "d_too_small beta m_len d =
     (0 < int m_len - int d * beta \<and> (d + 1) ^ d < (2::nat) ^ nat (int m_len - int d * beta))"

lemma d_too_small_bound:
  assumes "d_too_small beta m_len d"
  shows "d < 2 ^ (m_len + nat \<bar>beta\<bar>)"
proof (cases "d = 0")
  case True
  then show ?thesis by simp
next
  case False
  let ?M = "m_len + nat \<bar>beta\<bar>"
  let ?k = "nat (int m_len - int d * beta)"
  have "int m_len - int d * beta \<le> int m_len + int d * \<bar>beta\<bar>"
  proof -
    have "- (int d * beta) \<le> int d * \<bar>beta\<bar>"
      by (metis abs_ge_minus_self abs_mult abs_of_nat order_trans abs_ge_self minus_mult_right mult_left_mono of_nat_0_le_iff)
    then show ?thesis by simp
  qed
  also have "\<dots> \<le> int d * (int m_len + \<bar>beta\<bar>)"
  proof -
    have "1 \<le> int d" using False by simp
    then have "int m_len \<le> int d * int m_len"
      by (metis mult_le_cancel_right1 mult.commute of_nat_0_le_iff mult_right_mono mult_1)
    then show ?thesis by (simp add: distrib_left)
  qed
  finally have "int m_len - int d * beta \<le> int (d * ?M)"
    by simp
  then have "?k \<le> d * ?M"
    by linarith
  then have "(2::nat) ^ ?k \<le> 2 ^ (d * ?M)"
    by (simp add: power_increasing)
  also have "\<dots> = (2 ^ ?M) ^ d"
    by (metis power_mult mult.commute)
  finally have "(d + 1) ^ d < ((2::nat) ^ ?M) ^ d"
    using assms unfolding d_too_small_def by (meson le_trans not_le)
  then have "d + 1 < (2::nat) ^ ?M"
    using power_less_imp_less_base by blast
  then show ?thesis by simp
qed

function find_d :: "int \<Rightarrow> nat \<Rightarrow> nat \<Rightarrow> nat" where
  "find_d beta m_len d = (if d_too_small beta m_len d then find_d beta m_len (d + 2) else d)"
  by pat_completeness auto
termination
proof (relation "measure (\<lambda>(beta, m_len, d). 2 ^ (m_len + nat \<bar>beta\<bar>) - d)")
  show "wf (measure (\<lambda>(beta, m_len, d). 2 ^ (m_len + nat \<bar>beta\<bar>) - d))"
    by simp
next
  fix beta :: int and m_len d :: nat
  assume "d_too_small beta m_len d"
  then have "d < 2 ^ (m_len + nat \<bar>beta\<bar>)"
    by (rule d_too_small_bound)
  then show "((beta, m_len, d + 2), (beta, m_len, d))
      \<in> measure (\<lambda>(beta, m_len, d). 2 ^ (m_len + nat \<bar>beta\<bar>) - d)"
    by simp
qed

declare find_d.simps [simp del]

text \<open>The number of binary digits of \<open>n\<close>; \<open>ceil_log2 n\<close> is the ceiling of \<open>log2 n\<close> for \<open>n \<ge> 1\<close>.\<close>

fun bit_length :: "nat \<Rightarrow> nat" where
  "bit_length n = (if n = 0 then 0 else Suc (bit_length (n div 2)))"

declare bit_length.simps [simp del]

definition ceil_log2 :: "nat \<Rightarrow> nat" where
  "ceil_log2 n = bit_length (n - 1)"

definition find_d_and_gamma :: "int \<Rightarrow> nat \<Rightarrow> nat \<times> int" where
  "find_d_and_gamma beta m_len =
     (let d = find_d beta m_len 1 in (d, beta + int (ceil_log2 (d + 1))))"

definition encoded_length :: "int \<Rightarrow> nat \<Rightarrow> int" where
  "encoded_length beta m_len =
     (case find_d_and_gamma beta m_len of (d, gamma) \<Rightarrow> int d * gamma + 2 * gamma)"

section \<open>Polynomials over GF(2)\<close>

text \<open>
  The codec computes with \<^verbatim>\<open>galois.Poly\<close> over \<^verbatim>\<open>galois.GF(2)\<close>. A polynomial is its
  list of coefficients, highest degree first, without leading zeros; the zero polynomial
  is the empty list.
\<close>

type_synonym gf2_poly = "bool list"

datatype amdc_error = Unknown_gamma | Not_in_field | Index_error | Zero_division

text \<open>
  \<^verbatim>\<open>galois.Poly(coeffs, gf)\<close> on a list or array of integers. A coefficient \<open>c\<close> is taken as
  the sign of \<open>c\<close> times the field element \<open>\<bar>c\<bar>\<close>, so \<open>- 1\<close> stands for 1 and a value with
  \<open>\<bar>c\<bar> > 1\<close> is refused; an empty list of coefficients makes the constructor raise
  \<^verbatim>\<open>IndexError\<close>.
\<close>

definition galois_Poly :: "int list \<Rightarrow> amdc_error + gf2_poly" where
  "galois_Poly coeffs =
     (if \<not> list_all (\<lambda>c. \<bar>c\<bar> \<le> 1) coeffs then Inl Not_in_field
      else if coeffs = [] then Inl Index_error
      else Inr (dropWhile Not (map (\<lambda>c. c \<noteq> 0) coeffs)))"

text \<open>A list comprehension over a constructor that can raise: the first error, or all values.\<close>

fun all_values :: "('e + 'a) list \<Rightarrow> 'e + 'a list" where
  "all_values [] = Inr []"
| "all_values (Inl e # rs) = Inl e"
| "all_values (Inr v # rs) = (case all_values rs of Inl e \<Rightarrow> Inl e | Inr vs \<Rightarrow> Inr (v # vs))"

definition poly_add :: "gf2_poly \<Rightarrow> gf2_poly \<Rightarrow> gf2_poly" where
  "poly_add p q =
     dropWhile Not (map2 (\<noteq>) (replicate (length q - length p) False @ p)
                                (replicate (length p - length q) False @ q))"

definition poly_shift :: "gf2_poly \<Rightarrow> gf2_poly" where
  "poly_shift p = (if p = [] then [] else p @ [False])"

definition poly_mul :: "gf2_poly \<Rightarrow> gf2_poly \<Rightarrow> gf2_poly" where
  "poly_mul p q = foldl (\<lambda>acc c. poly_add (poly_shift acc) (if c then q else [])) [] p"

primrec poly_pow :: "gf2_poly \<Rightarrow> nat \<Rightarrow> gf2_poly" where
  "poly_pow p 0 = [True]"
| "poly_pow p (Suc n) = poly_mul (poly_pow p n) p"

text \<open>The remainder of the division by a polynomial \<open>b \<noteq> 0\<close>, by shift and add.\<close>

function poly_mod :: "gf2_poly \<Rightarrow> gf2_poly \<Rightarrow> gf2_poly" where
  "poly_mod f b =
     (if b = [] \<or> length f < length b then f
      else poly_mod (dropWhile Not (tl (map2 (\<noteq>) f (b @ replicate (length f - length b) False)))) b)"
  by pat_completeness auto
termination
proof (relation "measure (\<lambda>(f, b). length f)")
  show "wf (measure (\<lambda>(f, b). length f))"
    by simp
next
  fix f b :: gf2_poly
  assume a: "\<not> (b = [] \<or> length f < length b)"
  let ?g = "tl (map2 (\<noteq>) f (b @ replicate (length f - length b) False))"
  have "length (dropWhile Not ?g) \<le> length ?g"
    by (rule length_dropWhile_le)
  moreover have "length ?g < length f"
    using a by (cases f) auto
  ultimately show "((dropWhile Not ?g, b), (f, b)) \<in> measure (\<lambda>(f, b). length f)"
    by simp
qed

declare poly_mod.simps [simp del]

text \<open>\<^verbatim>\<open>list(map(int, bin(poly)[2:]))\<close>: the binary digits of the integer that represents the polynomial.\<close>

definition poly_bits :: "gf2_poly \<Rightarrow> int list" where
  "poly_bits p = (if p = [] then [0] else map (\<lambda>c. if c then 1 else 0) p)"

text \<open>
  \<^verbatim>\<open>np.array_split(xs, d)\<close>: \<open>d\<close> sections, the first \<open>length xs mod d\<close> of them one longer
  than the others.
\<close>

definition array_split :: "'a list \<Rightarrow> nat \<Rightarrow> 'a list list" where
  "array_split xs d =
     map (\<lambda>i. if i < length xs mod d
              then take (length xs div d + 1) (drop (i * (length xs div d + 1)) xs)
              else take (length xs div d)
                     (drop (length xs mod d * (length xs div d + 1)
                              + (i - length xs mod d) * (length xs div d)) xs))
       [0..<d]"

section \<open>AMDC codec\<close>

text \<open>
  The part encoder and decoder share: the polynomials \<open>b\<close>, \<open>theta\<close> and \<open>u\<^sub>1 \<dots> u\<^sub>d\<close>, built
  in this order, \<open>f = theta ^ (d + 2) + \<Sum> u\<^sub>i * theta ^ i\<close>, its remainder modulo \<open>b\<close>, and the
  digits of the remainder filled with leading zeros up to \<open>gamma\<close>. The division by the
  zero polynomial raises \<^verbatim>\<open>ZeroDivisionError\<close> when it meets a non-zero coefficient of \<open>f\<close>;
  for \<open>f = 0\<close> it returns 0.
\<close>

definition amdc_f_poly :: "gf2_poly \<Rightarrow> gf2_poly list \<Rightarrow> nat \<Rightarrow> gf2_poly" where
  "amdc_f_poly theta_poly u_poly_list d =
     foldl (\<lambda>f_poly i. poly_add f_poly (poly_mul (u_poly_list ! (i - 1)) (poly_pow theta_poly i)))
       (poly_pow theta_poly (d + 2)) [1..<d + 1]"

definition amdc_tau :: "int list \<Rightarrow> int list \<Rightarrow> int list \<Rightarrow> nat \<Rightarrow> int \<Rightarrow> amdc_error + int list" where
  "amdc_tau b_binary theta_binary padded_message d gamma =
     (case galois_Poly b_binary of
        Inl e \<Rightarrow> Inl e
      | Inr b_poly \<Rightarrow>
     (case galois_Poly theta_binary of
        Inl e \<Rightarrow> Inl e
      | Inr theta_poly \<Rightarrow>
     (case all_values (map galois_Poly (array_split padded_message d)) of
        Inl e \<Rightarrow> Inl e
      | Inr u_poly_list \<Rightarrow>
          let f_poly = amdc_f_poly theta_poly u_poly_list d
          in if b_poly = [] \<and> f_poly \<noteq> [] then Inl Zero_division
             else
               let remainder_poly = poly_mod f_poly b_poly;
                   tau_binary = poly_bits remainder_poly
               in Inr (replicate (nat (gamma - int (length tau_binary))) 0 @ tau_binary))))"

text \<open>
  The table of irreducible polynomials (\<^verbatim>\<open>binary_irreducible_polynomials_dict.yaml\<close>) is a
  parameter \<open>tbl\<close>, from \<open>gamma\<close> to the digits of \<open>b\<close>; the values of \<^verbatim>\<open>randbits(1)\<close> are
  a parameter \<open>randbits\<close>, the \<open>k\<close>-th call returning \<open>randbits k\<close>. A \<open>gamma\<close> without an
  entry makes \<^verbatim>\<open>int\<close> fail on the text \<^verbatim>\<open>None\<close>.
\<close>

definition amdc_encode_message ::
    "(int \<rightharpoonup> int list) \<Rightarrow> (nat \<Rightarrow> int) \<Rightarrow> int list \<Rightarrow> int \<Rightarrow> amdc_error + int list" where
  "amdc_encode_message tbl randbits message beta =
     (case find_d_and_gamma beta (length message) of (d, gamma) \<Rightarrow>
        let theta_binary = map randbits [0..<nat gamma];
            padded_message = message @ replicate (nat (int d * gamma - int (length message))) 0
        in case tbl gamma of
             None \<Rightarrow> Inl Unknown_gamma
           | Some b_binary \<Rightarrow>
               (case amdc_tau b_binary theta_binary padded_message d gamma of
                  Inl e \<Rightarrow> Inl e
                | Inr tau_binary \<Rightarrow> Inr (padded_message @ theta_binary @ tau_binary)))"

definition amdc_decode_message ::
    "(int \<rightharpoonup> int list) \<Rightarrow> int list \<Rightarrow> nat \<Rightarrow> int \<Rightarrow> amdc_error + (bool \<times> int list)" where
  "amdc_decode_message tbl encoded_message message_length beta =
     (case find_d_and_gamma beta message_length of (d, gamma) \<Rightarrow>
        let padded_message = py_slice encoded_message None (Some (- 2 * gamma));
            theta_binary = py_slice encoded_message (Some (- 2 * gamma)) (Some (- gamma));
            tau_binary_received = py_slice encoded_message (Some (- gamma)) None
        in case tbl gamma of
             None \<Rightarrow> Inl Unknown_gamma
           | Some b_binary \<Rightarrow>
               (case amdc_tau b_binary theta_binary padded_message d gamma of
                  Inl e \<Rightarrow> Inl e
                | Inr tau_binary_calculated \<Rightarrow>
                    Inr (tau_binary_calculated = tau_binary_received,
                         py_slice padded_message None (Some (int message_length)))))"

section \<open>Evaluating the loops\<close>

lemma find_d_continue: "d_too_small beta m d \<Longrightarrow> find_d beta m d = find_d beta m (d + 2)"
  by (subst find_d.simps) simp

lemma find_d_stop: "\<not> d_too_small beta m d \<Longrightarrow> find_d beta m d = d"
  by (subst find_d.simps) simp

lemma bit_length_0: "bit_length 0 = 0"
  by (simp add: bit_length.simps)

lemma bit_length_pos: "0 < n \<Longrightarrow> bit_length n = Suc (bit_length (n div 2))"
  by (subst bit_length.simps) simp

lemma poly_mod_stop: "b = [] \<or> length f < length b \<Longrightarrow> poly_mod f b = f"
  by (subst poly_mod.simps) simp

lemma poly_mod_step:
  "b \<noteq> [] \<Longrightarrow> length b \<le> length f \<Longrightarrow>
   poly_mod f b =
     poly_mod (dropWhile Not (tl (map2 (\<noteq>) f (b @ replicate (length f - length b) False)))) b"
  by (subst poly_mod.simps) simp

lemma find_d_and_gamma_1_0: "find_d_and_gamma 1 0 = (1, 2)"
  by (simp add: find_d_and_gamma_def find_d_stop d_too_small_def ceil_log2_def
      bit_length_0 bit_length_pos)

lemma find_d_5_64: "find_d 5 64 1 = 9"
proof -
  have "find_d 5 64 1 = find_d 5 64 3"
    using find_d_continue [of 5 64 1] by (simp add: d_too_small_def numeral_3_eq_3)
  also have "\<dots> = find_d 5 64 5"
    using find_d_continue [of 5 64 3] by (simp add: d_too_small_def)
  also have "\<dots> = find_d 5 64 7"
    using find_d_continue [of 5 64 5] by (simp add: d_too_small_def)
  also have "\<dots> = find_d 5 64 9"
    using find_d_continue [of 5 64 7] by (simp add: d_too_small_def)
  also have "\<dots> = 9"
    using find_d_stop [of 5 64 9] by (simp add: d_too_small_def)
  finally show ?thesis .
qed

lemma find_d_3_64: "find_d 3 64 1 = 11"
proof -
  have "find_d 3 64 1 = find_d 3 64 3"
    using find_d_continue [of 3 64 1] by (simp add: d_too_small_def numeral_3_eq_3)
  also have "\<dots> = find_d 3 64 5"
    using find_d_continue [of 3 64 3] by (simp add: d_too_small_def)
  also have "\<dots> = find_d 3 64 7"
    using find_d_continue [of 3 64 5] by (simp add: d_too_small_def)
  also have "\<dots> = find_d 3 64 9"
    using find_d_continue [of 3 64 7] by (simp add: d_too_small_def)
  also have "\<dots> = find_d 3 64 11"
    using find_d_continue [of 3 64 9] by (simp add: d_too_small_def)
  also have "\<dots> = 11"
    using find_d_stop [of 3 64 11] by (simp add: d_too_small_def)
  finally show ?thesis .
qed

lemma ceil_log2_10: "ceil_log2 10 = 4"
  by (simp add: ceil_log2_def bit_length_0 bit_length_pos)

lemma ceil_log2_12: "ceil_log2 12 = 4"
  by (simp add: ceil_log2_def bit_length_0 bit_length_pos)

lemma find_d_and_gamma_5_64: "find_d_and_gamma 5 64 = (9, 9)"
  by (simp only: find_d_and_gamma_def Let_def find_d_5_64) (simp add: ceil_log2_10)

lemma find_d_and_gamma_3_64: "find_d_and_gamma 3 64 = (11, 7)"
  by (simp only: find_d_and_gamma_def Let_def find_d_3_64) (simp add: ceil_log2_12)

section \<open>The decoder and the length of its input\<close>

lemma list_all_py_slice: "list_all P xs \<Longrightarrow> list_all P (py_slice xs a b)"
  by (auto simp: py_slice_def Let_def list_all_iff dest: in_set_takeD in_set_dropD)

lemma encoded_length_1_0: "encoded_length 1 0 = 6"
  by (simp add: encoded_length_def find_d_and_gamma_1_0)

text \<open>
  C7, as stated: the decoder fails with a length error on every input whose length is not
  \<open>d * gamma + 2 * gamma\<close>. The code has no such check. With \<open>beta = 1\<close> and
  \<open>message_length = 0\<close> the expected length is 6; on seven zero bits the decoder returns a
  normal result, and even accepts the tag.
\<close>

theorem decode_bad_length_counterexample:
  "int (length [0, 0, 0, 0, 0, 0, 0 :: int]) \<noteq> encoded_length 1 0 \<and>
   amdc_decode_message [2 \<mapsto> [1, 1, 1]] [0, 0, 0, 0, 0, 0, 0] 0 1 = Inr (True, [])"
  by (simp add: encoded_length_1_0 amdc_decode_message_def find_d_and_gamma_1_0 py_slice_def
      py_index_def amdc_tau_def is_bit_def galois_Poly_def array_split_def amdc_f_poly_def
      poly_mul_def poly_add_def poly_shift_def poly_mod_stop poly_mod_step poly_bits_def)

section \<open>The codec round trip\<close>

lemma find_d_not_too_small: "\<not> d_too_small beta m (find_d beta m d)"
proof (induction beta m d rule: find_d.induct)
  case (1 beta m d)
  then show ?case by (subst find_d.simps) (auto simp: find_d_stop)
qed

lemma find_d_ge: "d \<le> find_d beta m d"
proof (induction beta m d rule: find_d.induct)
  case (1 beta m d)
  show ?case
  proof (cases "d_too_small beta m d")
    case True
    with 1 show ?thesis by (simp add: find_d_continue)
  next
    case False
    then show ?thesis by (simp add: find_d_stop)
  qed
qed

lemma less_two_power_bit_length: "n < 2 ^ bit_length n"
proof (induction n rule: bit_length.induct)
  case (1 n)
  show ?case
  proof (cases "n = 0")
    case True
    then show ?thesis by (simp add: bit_length_0)
  next
    case False
    with 1 have "n div 2 < 2 ^ bit_length (n div 2)" by simp
    then have "n < 2 * 2 ^ bit_length (n div 2)" by linarith
    with False show ?thesis by (simp add: bit_length_pos)
  qed
qed

lemma le_two_power_ceil_log2: "n \<le> 2 ^ ceil_log2 n"
  using less_two_power_bit_length [of "n - 1"] by (simp add: ceil_log2_def)

lemma padding_covers_message:
  assumes "\<not> d_too_small beta m d"
  shows "int m \<le> int d * (beta + int (ceil_log2 (d + 1)))"
proof (cases "0 < int m - int d * beta")
  case False
  moreover have "0 \<le> int d * int (ceil_log2 (d + 1))" by simp
  ultimately have "int m \<le> int d * beta + int d * int (ceil_log2 (d + 1))" by linarith
  then show ?thesis by (simp add: distrib_left)
next
  case True
  let ?k = "nat (int m - int d * beta)"
  let ?c = "ceil_log2 (d + 1)"
  from assms True have "(2::nat) ^ ?k \<le> (d + 1) ^ d"
    by (simp add: d_too_small_def)
  also have "\<dots> \<le> (2 ^ ?c) ^ d"
    by (rule power_mono) (simp_all add: le_two_power_ceil_log2)
  also have "\<dots> = 2 ^ (?c * d)"
    by (simp add: power_mult)
  finally have "?k \<le> ?c * d"
    by simp
  then have "int m - int d * beta \<le> int (?c * d)"
    by linarith
  then show ?thesis
    by (simp add: distrib_left mult.commute)
qed

lemma poly_mod_length: "b \<noteq> [] \<Longrightarrow> length (poly_mod f b) < length b"
proof (induction f b rule: poly_mod.induct)
  case (1 f b)
  show ?case
  proof (cases "length f < length b")
    case True
    then show ?thesis by (simp add: poly_mod_stop)
  next
    case False
    with 1 show ?thesis by (simp add: poly_mod_step)
  qed
qed

lemma poly_bits_length: "length (poly_bits p) = max 1 (length p)"
  by (cases p) (simp_all add: poly_bits_def)

lemma py_slice_parts:
  assumes "length t = g" "length u = g" "0 < g"
  shows "py_slice (p @ t @ u) None (Some (- 2 * int g)) = p"
    and "py_slice (p @ t @ u) (Some (- 2 * int g)) (Some (- int g)) = t"
    and "py_slice (p @ t @ u) (Some (- int g)) None = u"
  using assms by (simp_all add: py_slice_def py_index_def Let_def)

lemma py_slice_prefix: "py_slice (m @ z) None (Some (int (length m))) = m"
  by (simp add: py_slice_def py_index_def Let_def)

lemma list_all_is_bit_poly_bits: "list_all is_bit (poly_bits p)"
  by (auto simp: poly_bits_def is_bit_def list_all_iff)

lemma galois_Poly_bits:
  "list_all is_bit cs \<Longrightarrow>
   galois_Poly cs =
     (if cs = [] then Inl Index_error else Inr (dropWhile Not (map (\<lambda>c. c \<noteq> 0) cs)))"
  by (auto simp: galois_Poly_def list_all_iff is_bit_def)

lemma all_values_galois_Poly:
  "\<forall>s\<in>set ss. list_all is_bit s \<Longrightarrow>
   all_values (map galois_Poly ss) =
     (if [] \<in> set ss then Inl Index_error
      else Inr (map (\<lambda>cs. dropWhile Not (map (\<lambda>c. c \<noteq> 0) cs)) ss))"
  by (induction ss) (auto simp: galois_Poly_bits)

lemma array_split_bits: "list_all P xs \<Longrightarrow> \<forall>s\<in>set (array_split xs d). list_all P s"
  by (auto simp: array_split_def list_all_iff dest: in_set_takeD in_set_dropD)

lemma array_split_empty_section:
  assumes "length xs < d"
  shows "[] \<in> set (array_split xs d)"
proof -
  from assms have "d - 1 \<in> set [0..<d]" "\<not> d - 1 < length xs mod d" "length xs div d = 0"
    by simp_all
  then show ?thesis
    unfolding array_split_def set_map by (intro image_eqI [where x = "d - 1"]) simp_all
qed

lemma array_split_no_empty_section:
  assumes "0 < d" "d \<le> length xs"
  shows "[] \<notin> set (array_split xs d)"
proof
  define q r where "q = length xs div d" and "r = length xs mod d"
  have len: "length xs = r * (q + 1) + (d - r) * q" and r: "r < d" and q: "1 \<le> q"
  proof -
    have "length xs = d * q + r" unfolding q_def r_def by simp
    moreover show "r < d" unfolding r_def using assms(1) by simp
    ultimately show "length xs = r * (q + 1) + (d - r) * q"
      by (simp add: algebra_simps diff_mult_distrib)
    show "1 \<le> q" unfolding q_def using assms by (simp add: div_greater_zero_iff Suc_leI)
  qed
  assume "[] \<in> set (array_split xs d)"
  then obtain i where i: "i < d"
    and e: "(if i < r then take (q + 1) (drop (i * (q + 1)) xs)
             else take q (drop (r * (q + 1) + (i - r) * q) xs)) = []"
    unfolding array_split_def q_def r_def by auto
  show False
  proof (cases "i < r")
    case True
    then have "i * (q + 1) < r * (q + 1)" by (intro mult_less_mono1) simp_all
    also have "\<dots> \<le> length xs" unfolding len by simp
    finally show False using e True by simp
  next
    case False
    with i have "i - r < d - r" by simp
    with q have "(i - r) * q < (d - r) * q" by simp
    then have "r * (q + 1) + (i - r) * q < length xs" unfolding len by simp
    with e False q show False by simp
  qed
qed

lemma amdc_tau_returns:
  assumes "list_all is_bit b" "length b = nat gamma + 1" "hd b = 1"
    and "list_all is_bit th" "th \<noteq> []"
    and "list_all is_bit pm" "0 < d" "d \<le> length pm"
    and "1 \<le> gamma"
  shows "\<exists>tau. amdc_tau b th pm d gamma = Inr tau \<and> length tau = nat gamma \<and> list_all is_bit tau"
proof -
  obtain x xs where b: "b = x # xs"
    using assms(2) by (cases b) auto
  define b_poly where "b_poly = dropWhile Not (map (\<lambda>c. c \<noteq> 0) b)"
  from b assms(2,3) have pb: "b_poly \<noteq> []" "length b_poly \<le> nat gamma + 1"
    by (auto simp: b_poly_def)
  have gb: "galois_Poly b = Inr b_poly"
    using assms(1) b by (simp add: galois_Poly_bits b_poly_def)
  have gt: "galois_Poly th = Inr (dropWhile Not (map (\<lambda>c. c \<noteq> 0) th))"
    using assms(4,5) by (simp add: galois_Poly_bits)
  have gu: "all_values (map galois_Poly (array_split pm d)) =
      Inr (map (\<lambda>cs. dropWhile Not (map (\<lambda>c. c \<noteq> 0) cs)) (array_split pm d))"
    using all_values_galois_Poly [OF array_split_bits [OF assms(6)], of d]
      array_split_no_empty_section [OF assms(7,8)] by simp
  let ?r = "poly_mod (amdc_f_poly (dropWhile Not (map (\<lambda>c. c \<noteq> 0) th))
              (map (\<lambda>cs. dropWhile Not (map (\<lambda>c. c \<noteq> 0) cs)) (array_split pm d)) d) b_poly"
  have "length ?r < length b_poly"
    using pb(1) by (rule poly_mod_length)
  with pb(2) assms(9) have "length (poly_bits ?r) \<le> nat gamma"
    by (simp add: poly_bits_length)
  then have "length (replicate (nat (gamma - int (length (poly_bits ?r)))) (0::int) @ poly_bits ?r)
      = nat gamma"
    by simp
  moreover have "list_all is_bit (replicate (nat (gamma - int (length (poly_bits ?r)))) (0::int)
      @ poly_bits ?r)"
    by (simp add: list_all_is_bit_poly_bits) (simp add: list_all_iff is_bit_def)
  ultimately show ?thesis
    using pb(1) by (simp add: amdc_tau_def gb gt gu Let_def)
qed

lemma amdc_tau_index_error:
  assumes "list_all is_bit b" "b \<noteq> []"
    and "list_all is_bit th"
    and "list_all is_bit pm"
    and "th = [] \<or> length pm < d"
  shows "amdc_tau b th pm d gamma = Inl Index_error"
proof (cases "th = []")
  case True
  then show ?thesis
    using assms(1,2) by (simp add: amdc_tau_def galois_Poly_bits)
next
  case False
  with assms(5) have "[] \<in> set (array_split pm d)"
    by (simp add: array_split_empty_section)
  then have "all_values (map galois_Poly (array_split pm d)) = Inl Index_error"
    using all_values_galois_Poly [OF array_split_bits [OF assms(4)], of d] by simp
  then show ?thesis
    using assms(1,2,3) False by (simp add: amdc_tau_def galois_Poly_bits)
qed

text \<open>
  C6: for every list of bits \<open>message\<close>, every \<open>beta \<ge> 1\<close> whose \<open>gamma\<close> has a table entry
  (a list of \<open>gamma + 1\<close> bits that starts with 1, the form the table is specified to have) and
  every value of the sampled key, the encoder returns a codeword and the decoder, given
  the codeword, the length of the message and \<open>beta\<close>, returns \<open>(True, message)\<close>.
\<close>

theorem amdc_round_trip:
  assumes "1 \<le> beta"
    and "list_all is_bit message"
    and "\<forall>k. is_bit (randbits k)"
    and "find_d_and_gamma beta (length message) = (d, gamma)"
    and "tbl gamma = Some b_binary"
    and "list_all is_bit b_binary"
    and "length b_binary = nat gamma + 1"
    and "hd b_binary = 1"
  shows "\<exists>enc. amdc_encode_message tbl randbits message beta = Inr enc \<and>
           amdc_decode_message tbl enc (length message) beta = Inr (True, message)"
proof -
  let ?g = "nat gamma"
  let ?theta = "map randbits [0..<?g]"
  let ?padded = "message @ replicate (nat (int d * gamma - int (length message))) (0::int)"
  from assms(4) have d: "d = find_d beta (length message) 1"
    and gamma: "gamma = beta + int (ceil_log2 (d + 1))"
    by (auto simp: find_d_and_gamma_def Let_def)
  from gamma assms(1) have g1: "1 \<le> gamma" by simp
  then have g: "int ?g = gamma" "0 < ?g" by simp_all
  have cover0: "int (length message) \<le> int d * gamma"
    unfolding gamma d by (rule padding_covers_message) (rule find_d_not_too_small)
  have d1: "0 < d"
    unfolding d using find_d_ge [of 1 beta "length message"] by simp
  have "int d \<le> int d * gamma"
    using g1 by (simp add: mult_le_cancel_left1)
  with cover0 have dp: "d \<le> length ?padded"
    by simp
  have t0: "?theta \<noteq> []"
    using g1 by simp
  have bt: "list_all is_bit ?theta"
    using assms(3) by (simp add: list_all_iff)
  have bp: "list_all is_bit ?padded"
    using assms(2) by (auto simp: list_all_iff is_bit_def)
  from amdc_tau_returns [OF assms(6,7,8) bt t0 bp d1 dp g1]
  obtain tau where tau: "amdc_tau b_binary ?theta ?padded d gamma = Inr tau"
    and len: "length tau = ?g"
    by blast
  define enc where "enc = ?padded @ ?theta @ tau"
  have enc: "amdc_encode_message tbl randbits message beta = Inr enc"
    using assms(4,5) tau by (simp add: amdc_encode_message_def Let_def enc_def)
  have th: "length ?theta = ?g" by simp
  have s1: "py_slice enc None (Some (- (2 * gamma))) = ?padded"
    unfolding enc_def using py_slice_parts(1) [OF th len g(2), of ?padded] g(1) by simp
  have s2: "py_slice enc (Some (- (2 * gamma))) (Some (- gamma)) = ?theta"
    unfolding enc_def using py_slice_parts(2) [OF th len g(2), of ?padded] g(1) by simp
  have s3: "py_slice enc (Some (- gamma)) None = tau"
    unfolding enc_def using py_slice_parts(3) [OF th len g(2), of ?padded] g(1) by simp
  have s4: "py_slice ?padded None (Some (int (length message))) = message"
    by (rule py_slice_prefix)
  have "amdc_decode_message tbl enc (length message) beta = Inr (True, message)"
    using assms(4,5) tau by (simp add: amdc_decode_message_def Let_def s1 s2 s3 s4)
  with enc show ?thesis by blast
qed

lemma find_d_and_gamma_1_3: "find_d_and_gamma 1 3 = (3, 3)"
proof -
  have "find_d 1 3 1 = find_d 1 3 3"
    using find_d_continue [of 1 3 1] by (simp add: d_too_small_def numeral_3_eq_3)
  also have "\<dots> = 3"
    using find_d_stop [of 1 3 3] by (simp add: d_too_small_def)
  finally have "find_d 1 3 1 = 3" .
  moreover have "ceil_log2 4 = 2"
    by (simp add: ceil_log2_def bit_length_0 bit_length_pos)
  ultimately show ?thesis
    by (simp only: find_d_and_gamma_def Let_def) simp
qed

theorem amdc_round_trip_witness:
  "\<exists>enc. amdc_encode_message [3 \<mapsto> [1, 0, 1, 1]] (\<lambda>k. if k = 1 then 1 else 0) [1, 0, 1] 1 = Inr enc \<and>
     amdc_decode_message [3 \<mapsto> [1, 0, 1, 1]] enc 3 1 = Inr (True, [1, 0, 1])"
proof -
  have l: "length [1, 0, 1 :: int] = 3"
    by simp
  have h1: "(1::int) \<le> 1"
    by simp
  have h2: "list_all is_bit [1, 0, 1]"
    by (simp add: is_bit_def)
  have h3: "\<forall>k::nat. is_bit (if k = 1 then 1 else 0)"
    by (simp add: is_bit_def)
  have h4: "find_d_and_gamma 1 (length [1, 0, 1 :: int]) = (3, 3)"
    unfolding l by (rule find_d_and_gamma_1_3)
  have h5: "[3 \<mapsto> [1, 0, 1, 1 :: int]] (3::int) = Some [1, 0, 1, 1]"
    by simp
  have h6: "list_all is_bit [1, 0, 1, 1]"
    by (simp add: is_bit_def)
  have h7: "length [1, 0, 1, 1 :: int] = nat 3 + 1"
    by simp
  have h8: "hd [1, 0, 1, 1 :: int] = 1"
    by simp
  show ?thesis
    using amdc_round_trip [of 1 "[1, 0, 1]" "\<lambda>k. if k = 1 then 1 else 0" 3 3
        "[3 \<mapsto> [1, 0, 1, 1]]" "[1, 0, 1, 1]", OF h1 h2 h3 h4 h5 h6 h7 h8]
    unfolding l .
qed

lemma amdc_encode_message_length:
  assumes "1 \<le> beta"
    and "list_all is_bit message"
    and "\<forall>k. is_bit (randbits k)"
    and "find_d_and_gamma beta (length message) = (d, gamma)"
    and "tbl gamma = Some b_binary"
    and "list_all is_bit b_binary"
    and "length b_binary = nat gamma + 1"
    and "hd b_binary = 1"
  shows "\<exists>enc. amdc_encode_message tbl randbits message beta = Inr enc \<and>
           int (length enc) = encoded_length beta (length message)"
proof -
  let ?g = "nat gamma"
  let ?theta = "map randbits [0..<?g]"
  let ?padded = "message @ replicate (nat (int d * gamma - int (length message))) (0::int)"
  from assms(4) have d: "d = find_d beta (length message) 1"
    and gamma: "gamma = beta + int (ceil_log2 (d + 1))"
    by (auto simp: find_d_and_gamma_def Let_def)
  from gamma assms(1) have g1: "1 \<le> gamma" by simp
  have cover: "int (length message) \<le> int d * gamma"
    unfolding gamma d by (rule padding_covers_message) (rule find_d_not_too_small)
  note cover0 = cover
  have d1: "0 < d"
    unfolding d using find_d_ge [of 1 beta "length message"] by simp
  have "int d \<le> int d * gamma"
    using g1 by (simp add: mult_le_cancel_left1)
  with cover0 have dp: "d \<le> length ?padded"
    by simp
  have t0: "?theta \<noteq> []"
    using g1 by simp
  have bt: "list_all is_bit ?theta"
    using assms(3) by (simp add: list_all_iff)
  have bp: "list_all is_bit ?padded"
    using assms(2) by (auto simp: list_all_iff is_bit_def)
  from amdc_tau_returns [OF assms(6,7,8) bt t0 bp d1 dp g1]
  obtain tau where tau: "amdc_tau b_binary ?theta ?padded d gamma = Inr tau"
    and len: "length tau = ?g"
    by blast
  have "amdc_encode_message tbl randbits message beta = Inr (?padded @ ?theta @ tau)"
    using assms(4,5) tau by (simp add: amdc_encode_message_def Let_def)
  moreover have "int (length (?padded @ ?theta @ tau)) = encoded_length beta (length message)"
    using cover g1 len by (simp add: encoded_length_def assms(4))
  ultimately show ?thesis by blast
qed

section \<open>The decoder on inputs of any length\<close>

lemma py_slice_from_end:
  assumes "0 < g"
  shows "py_slice xs None (Some (- (2 * int g))) = take (length xs - 2 * g) xs"
    and "py_slice xs (Some (- (2 * int g))) (Some (- int g)) =
           take (length xs - g - (length xs - 2 * g)) (drop (length xs - 2 * g) xs)"
    and "py_slice xs (Some (- int g)) None = drop (length xs - g) xs"
proof -
  have a: "nat (max (int (length xs) - 2 * int g) 0) = length xs - 2 * g"
    and b: "nat (max (int (length xs) - int g) 0) = length xs - g"
    by linarith+
  from assms show "py_slice xs None (Some (- (2 * int g))) = take (length xs - 2 * g) xs"
    by (simp add: py_slice_def py_index_def a)
  from assms show "py_slice xs (Some (- (2 * int g))) (Some (- int g)) =
      take (length xs - g - (length xs - 2 * g)) (drop (length xs - 2 * g) xs)"
    by (simp add: py_slice_def py_index_def Let_def a b)
  from assms show "py_slice xs (Some (- int g)) None = drop (length xs - g) xs"
    by (simp add: py_slice_def py_index_def b)
qed

lemma py_slice_to: "py_slice xs None (Some (int m)) = take m xs"
  by (simp add: py_slice_def py_index_def min_def)

text \<open>
  C7, amended: the decoder makes no test of the length of its input, and there is no
  length error. With \<open>(d, gamma)\<close> derived from \<open>beta\<close> and \<open>message_length\<close>, on every list of
  at least \<open>2 * gamma + d\<close> bits, whatever its length, it returns a normal result: the last
  \<open>gamma\<close> bits are the received tag, the \<open>gamma\<close> bits before them the key, the bits before
  those the padded message; the flag says whether the tag computed from key and padded
  message is the received one, and the bits returned are the first \<open>message_length\<close> of
  the padded message. On a shorter list a block or the key has no coefficient, and
  \<^verbatim>\<open>galois.Poly\<close> raises \<^verbatim>\<open>IndexError\<close>.
\<close>

theorem decode_no_length_check:
  assumes "1 \<le> beta"
    and "find_d_and_gamma beta message_length = (d, gamma)"
    and "tbl gamma = Some b_binary"
    and "list_all is_bit b_binary"
    and "length b_binary = nat gamma + 1"
    and "hd b_binary = 1"
    and "list_all is_bit encoded_message"
  shows "(2 * nat gamma + d \<le> length encoded_message \<longrightarrow>
            (\<exists>tau. amdc_tau b_binary
                     (take (nat gamma)
                        (drop (length encoded_message - 2 * nat gamma) encoded_message))
                     (take (length encoded_message - 2 * nat gamma) encoded_message) d gamma
                     = Inr tau \<and>
                   length tau = nat gamma \<and>
                   amdc_decode_message tbl encoded_message message_length beta =
                     Inr (tau = drop (length encoded_message - nat gamma) encoded_message,
                          take message_length
                            (take (length encoded_message - 2 * nat gamma) encoded_message)))) \<and>
         (length encoded_message < 2 * nat gamma + d \<longrightarrow>
            amdc_decode_message tbl encoded_message message_length beta = Inl Index_error)"
proof -
  let ?n = "length encoded_message"
  let ?g = "nat gamma"
  let ?pm = "take (?n - 2 * ?g) encoded_message"
  let ?th = "take (?n - ?g - (?n - 2 * ?g)) (drop (?n - 2 * ?g) encoded_message)"
  from assms(2) have d: "d = find_d beta message_length 1"
    and gamma: "gamma = beta + int (ceil_log2 (d + 1))"
    by (auto simp: find_d_and_gamma_def Let_def)
  from gamma assms(1) have g1: "1 \<le> gamma" by simp
  then have g: "gamma = int ?g" "0 < ?g" by simp_all
  have d1: "0 < d"
    unfolding d using find_d_ge [of 1 beta message_length] by simp
  have s1: "py_slice encoded_message None (Some (- (2 * gamma))) = ?pm"
    using py_slice_from_end(1) [OF g(2), of encoded_message] g(1) by simp
  have s2: "py_slice encoded_message (Some (- (2 * gamma))) (Some (- gamma)) = ?th"
    using py_slice_from_end(2) [OF g(2), of encoded_message] g(1) by simp
  have s3: "py_slice encoded_message (Some (- gamma)) None = drop (?n - ?g) encoded_message"
    using py_slice_from_end(3) [OF g(2), of encoded_message] g(1) by simp
  have bp: "list_all is_bit ?pm" and bt: "list_all is_bit ?th"
    using assms(7) by (auto simp: list_all_iff dest: in_set_takeD in_set_dropD)
  have dec: "amdc_decode_message tbl encoded_message message_length beta =
      (case amdc_tau b_binary ?th ?pm d gamma of
         Inl e \<Rightarrow> Inl e
       | Inr tau \<Rightarrow> Inr (tau = drop (?n - ?g) encoded_message, take message_length ?pm))"
    using assms(2,3)
    by (simp add: amdc_decode_message_def Let_def s1 s2 s3 py_slice_to cong: sum.case_cong)
  have long: "\<exists>tau. amdc_tau b_binary (take ?g (drop (?n - 2 * ?g) encoded_message)) ?pm d gamma
        = Inr tau \<and> length tau = ?g \<and>
      amdc_decode_message tbl encoded_message message_length beta =
        Inr (tau = drop (?n - ?g) encoded_message, take message_length ?pm)"
    if len: "2 * ?g + d \<le> ?n"
  proof -
    from len have th: "?th = take ?g (drop (?n - 2 * ?g) encoded_message)"
      by (simp add: algebra_simps)
    from len g(2) have "?th \<noteq> []"
      by simp
    moreover from len have "d \<le> length ?pm"
      by simp
    ultimately obtain tau where "amdc_tau b_binary ?th ?pm d gamma = Inr tau"
      and "length tau = ?g"
      using amdc_tau_returns [OF assms(4,5,6) bt _ bp d1 _ g1] by blast
    then show ?thesis
      using dec th by auto
  qed
  have short: "amdc_decode_message tbl encoded_message message_length beta = Inl Index_error"
    if len: "?n < 2 * ?g + d"
  proof -
    from len d1 have "?n - 2 * ?g < d"
      by linarith
    then have "length ?pm < d"
      by simp
    moreover from assms(5) have "b_binary \<noteq> []"
      by auto
    ultimately have "amdc_tau b_binary ?th ?pm d gamma = Inl Index_error"
      using amdc_tau_index_error [OF assms(4) _ bt bp] by blast
    then show ?thesis
      using dec by simp
  qed
  from long short show ?thesis by blast
qed

theorem decode_no_length_check_witness:
  "(\<exists>tau. amdc_tau [1, 0, 1, 1] [0, 1, 0] [1, 0, 1, 1, 0, 0, 1, 0, 1, 0] 3 3 = Inr tau \<and>
          length tau = 3 \<and>
          amdc_decode_message [3 \<mapsto> [1, 0, 1, 1]]
              [1, 0, 1, 1, 0, 0, 1, 0, 1, 0, 0, 1, 0, 1, 1, 0] 3 1 =
            Inr (tau = [1, 1, 0], [1, 0, 1])) \<and>
   amdc_decode_message [3 \<mapsto> [1, 0, 1, 1]] [0, 1, 0, 1, 1, 0, 1, 1] 3 1 = Inl Index_error"
  using decode_no_length_check [of 1 3 3 3 "[3 \<mapsto> [1, 0, 1, 1]]" "[1, 0, 1, 1]"
      "[1, 0, 1, 1, 0, 0, 1, 0, 1, 0, 0, 1, 0, 1, 1, 0]"]
    decode_no_length_check [of 1 3 3 3 "[3 \<mapsto> [1, 0, 1, 1]]" "[1, 0, 1, 1]"
      "[0, 1, 0, 1, 1, 0, 1, 1]"]
  by (simp add: find_d_and_gamma_1_3 is_bit_def)

section \<open>Participants\<close>

text \<open>
  The messages of \<^verbatim>\<open>sort_incoming_messages\<close>: a dictionary with one key, the name of the
  list the value is appended to. The type has the nine keys the participants send; the
  branch for any other key is not modelled.
\<close>

datatype msg =
    Node_id string
  | Parity_shared_key int
  | Parity_key_xor_result int
  | Parity_finished bool
  | Veto_finished bool
  | Collision_detection_finished bool
  | Notification_finished bool
  | Fixed_message_finished bool
  | Message_finished bool

datatype py_exception = ValueError | NameError | IndexError | Amdc_failure amdc_error

text \<open>
  The fields of \<^verbatim>\<open>ParticipantNode\<close>, in the order of \<^verbatim>\<open>__init__\<close>. \<open>all_nodes\<close> holds the
  \<^verbatim>\<open>connected_node_id\<close> of each connection, in the order in which the set of connections is
  iterated. Four fields are not in the source: \<open>randbits_source\<close> and \<open>randbits_count\<close>
  stand for \<^verbatim>\<open>secrets.randbits\<close> (the \<open>k\<close>-th call of \<^verbatim>\<open>randbits(1)\<close> in this process returns
  1 iff \<open>randbits_source k\<close>); \<open>outbox\<close> holds what \<^verbatim>\<open>n.send(data)\<close> has written and the
  transport has not yet delivered, as pairs of the connection's node id and the message;
  \<open>sent_log\<close> keeps every message sent, in the order of sending.
\<close>

record participant =
  node_id :: string
  all_nodes :: "string list"
  all_node_ids :: "string list"
  parity_input :: int
  parity_shared_keys :: "int list"
  parity_broadcasts_last :: bool
  parity_received_broadcast_values :: "int list"
  parity_result :: int
  parity_finished :: "bool list"
  veto_input :: int
  veto_result :: int
  veto_finished :: "bool list"
  collision_detection_input :: int
  collision_detection_result :: int
  collision_detection_finished :: "bool list"
  notification_input :: string
  notification_is_spectator :: bool
  notification_result :: int
  notification_finished :: "bool list"
  message_length :: nat
  encoded_message_length :: nat
  message_input :: "int list"
  message_amdc_encoded_input :: "int list"
  is_message_sender :: bool
  is_message_receiver :: bool
  message_amdc_encoded_received_message :: "int list"
  message_amdc_decoded_received_message :: "int list"
  message_received_str :: string
  one_time_pad :: "int list"
  fixed_message_finished :: "bool list"
  message_finished :: "bool list"
  randbits_source :: "nat \<Rightarrow> bool"
  randbits_count :: nat
  outbox :: "(string \<times> msg) list"
  sent_log :: "(string \<times> msg) list"

type_synonym net = "participant list"

text \<open>
  The state after \<^verbatim>\<open>__init__\<close> and after the connections to \<open>peers\<close> are made. \<^verbatim>\<open>__init__\<close>
  assigns the empty string to \<^verbatim>\<open>notification_input\<close> through its setter, which refuses the
  participant's own id: a participant whose id is the empty string cannot be built.
\<close>

definition new_participant :: "string \<Rightarrow> string list \<Rightarrow> (nat \<Rightarrow> bool) \<Rightarrow> participant" where
  "new_participant nid peers src =
     \<lparr>node_id = nid, all_nodes = peers, all_node_ids = [],
      parity_input = 0, parity_shared_keys = [], parity_broadcasts_last = False,
      parity_received_broadcast_values = [], parity_result = 0, parity_finished = [],
      veto_input = 0, veto_result = 0, veto_finished = [],
      collision_detection_input = 0, collision_detection_result = 0,
      collision_detection_finished = [],
      notification_input = [], notification_is_spectator = False, notification_result = 0,
      notification_finished = [],
      message_length = 64, encoded_message_length = 99, message_input = [],
      message_amdc_encoded_input = [], is_message_sender = False, is_message_receiver = False,
      message_amdc_encoded_received_message = [], message_amdc_decoded_received_message = [],
      message_received_str = [], one_time_pad = [], fixed_message_finished = [],
      message_finished = [],
      randbits_source = src, randbits_count = 0, outbox = [], sent_log = []\<rparr>"

definition ParticipantNode_init ::
    "string \<Rightarrow> (nat \<Rightarrow> bool) \<Rightarrow> py_exception + participant" where
  "ParticipantNode_init nid src =
     (if [] = nid then Inl NameError else Inr (new_participant nid [] src))"

subsection \<open>Setters\<close>

text \<open>
  A setter that raises leaves the object as it was: the error carries the state at the
  \<^verbatim>\<open>raise\<close>.
\<close>

definition set_parity_input :: "int \<Rightarrow> participant \<Rightarrow> (py_exception \<times> participant) + participant" where
  "set_parity_input b p =
     (if b \<noteq> 1 \<and> b \<noteq> 0 then Inl (ValueError, p) else Inr (p\<lparr>parity_input := b\<rparr>))"

definition set_veto_input :: "int \<Rightarrow> participant \<Rightarrow> (py_exception \<times> participant) + participant" where
  "set_veto_input b p =
     (if b \<noteq> 1 \<and> b \<noteq> 0 then Inl (ValueError, p) else Inr (p\<lparr>veto_input := b\<rparr>))"

definition set_collision_detection_input ::
    "int \<Rightarrow> participant \<Rightarrow> (py_exception \<times> participant) + participant" where
  "set_collision_detection_input b p =
     (if b \<noteq> 1 \<and> b \<noteq> 0 then Inl (ValueError, p)
      else Inr (p\<lparr>collision_detection_input := b\<rparr>))"



text \<open>
  C10: a value that is neither 0 nor 1 makes each of the three setters raise
  \<^verbatim>\<open>ValueError\<close> and leaves the participant, and so the stored field, as it was; 0 and 1
  are stored as they are.
\<close>

theorem bit_setters:
  "(b \<noteq> 0 \<and> b \<noteq> 1 \<longrightarrow>
      set_parity_input b p = Inl (ValueError, p) \<and>
      set_veto_input b p = Inl (ValueError, p) \<and>
      set_collision_detection_input b p = Inl (ValueError, p)) \<and>
   (b = 0 \<or> b = 1 \<longrightarrow>
      set_parity_input b p = Inr (p\<lparr>parity_input := b\<rparr>) \<and>
      set_veto_input b p = Inr (p\<lparr>veto_input := b\<rparr>) \<and>
      set_collision_detection_input b p = Inr (p\<lparr>collision_detection_input := b\<rparr>))"
  by (auto simp: set_parity_input_def set_veto_input_def set_collision_detection_input_def)

theorem bit_setters_witness:
  "set_parity_input 2 (new_participant ''1'' [''2''] (\<lambda>k. False)) =
     Inl (ValueError, new_participant ''1'' [''2''] (\<lambda>k. False)) \<and>
   parity_input (projr (set_veto_input 1 (new_participant ''1'' [''2''] (\<lambda>k. False)))) = 0 \<and>
   veto_input (projr (set_veto_input 1 (new_participant ''1'' [''2''] (\<lambda>k. False)))) = 1"
  using bit_setters [of 2 "new_participant ''1'' [''2''] (\<lambda>k. False)"]
    bit_setters [of 1 "new_participant ''1'' [''2''] (\<lambda>k. False)"]
  by (simp add: new_participant_def)

section \<open>The length of the fixed-role transmission\<close>

text \<open>The values the next calls of \<^verbatim>\<open>randbits(1)\<close> return in this process.\<close>

definition randbits_next :: "participant \<Rightarrow> nat \<Rightarrow> int" where
  "randbits_next p k = (if randbits_source p (randbits_count p + k) then 1 else 0)"

text \<open>
  \<^verbatim>\<open>execute_message_transmission\<close> calls
  \<^verbatim>\<open>execute_fixed_role_message_transmission(security, self.encoded_message_length)\<close>:
  the second argument, \<^verbatim>\<open>bit_count\<close>, is the field, whatever \<open>security\<close> is.
\<close>

definition fixed_role_bit_count :: "int \<Rightarrow> participant \<Rightarrow> nat" where
  "fixed_role_bit_count security p = encoded_message_length p"

text \<open>
  The sender's part of \<^verbatim>\<open>execute_fixed_role_message_transmission\<close> before the parity rounds:
  the message is encoded (which draws \<open>gamma\<close> random bits) and the length of the codeword is
  compared with the field \<^verbatim>\<open>encoded_message_length\<close>.
\<close>

definition fixed_role_encode_input ::
    "(int \<rightharpoonup> int list) \<Rightarrow> int \<Rightarrow> participant \<Rightarrow> (py_exception \<times> participant) + participant" where
  "fixed_role_encode_input tbl security p =
     (if is_message_sender p then
        (case amdc_encode_message tbl (randbits_next p) (message_input p) security of
           Inl e \<Rightarrow> Inl (Amdc_failure e, p)
         | Inr encoded \<Rightarrow>
             let q = p\<lparr>message_amdc_encoded_input := encoded,
                       randbits_count := randbits_count p
                         + nat (snd (find_d_and_gamma security (length (message_input p))))\<rparr>
             in if length (message_amdc_encoded_input q) \<noteq> encoded_message_length q
                then Inl (ValueError, q) else Inr q)
      else Inr p)"

lemma encoded_length_5_64: "encoded_length 5 64 = 99"
  by (simp add: encoded_length_def find_d_and_gamma_5_64)

lemma encoded_length_3_64: "encoded_length 3 64 = 91"
  by (simp add: encoded_length_def find_d_and_gamma_3_64)

lemma fixed_role_encode_input_check:
  assumes "1 \<le> beta"
    and "is_message_sender p"
    and "list_all is_bit (message_input p)"
    and "length (message_input p) = 64"
    and "find_d_and_gamma beta 64 = (d, gamma)"
    and "tbl gamma = Some b_binary"
    and "list_all is_bit b_binary"
    and "length b_binary = nat gamma + 1"
    and "hd b_binary = 1"
  shows "(encoded_length beta 64 = int (encoded_message_length p) \<longrightarrow>
            (\<exists>q. fixed_role_encode_input tbl beta p = Inr q \<and>
                 length (message_amdc_encoded_input q) = fixed_role_bit_count beta p)) \<and>
         (encoded_length beta 64 \<noteq> int (encoded_message_length p) \<longrightarrow>
            isl (fixed_role_encode_input tbl beta p) \<and>
            fst (projl (fixed_role_encode_input tbl beta p)) = ValueError)"
proof -
  have "\<forall>k. is_bit (randbits_next p k)"
    by (simp add: randbits_next_def is_bit_def)
  with assms obtain enc
    where "amdc_encode_message tbl (randbits_next p) (message_input p) beta = Inr enc"
      and "int (length enc) = encoded_length beta 64"
    using amdc_encode_message_length [of beta "message_input p" "randbits_next p" d gamma tbl b_binary]
    by auto
  then show ?thesis
    using assms(2) by (auto simp: fixed_role_encode_input_def fixed_role_bit_count_def Let_def)
qed

text \<open>
  C5, as stated: for every \<open>beta\<close> the fixed-role transmission is called with the encoded
  length of \<open>(beta, 64)\<close>, and the sender's check succeeds. With \<open>beta = 3\<close> the encoded length
  is 91, the argument is 99, and a sender with a message of 64 bits raises \<^verbatim>\<open>ValueError\<close>.
\<close>

theorem bit_count_counterexample:
  "int (fixed_role_bit_count 3
         ((new_participant ''1'' [''2''] (\<lambda>k. False))
            \<lparr>is_message_sender := True, message_input := replicate 64 0\<rparr>))
     \<noteq> encoded_length 3 64 \<and>
   isl (fixed_role_encode_input [7 \<mapsto> [1, 0, 0, 0, 0, 0, 1, 1]] 3
          ((new_participant ''1'' [''2''] (\<lambda>k. False))
             \<lparr>is_message_sender := True, message_input := replicate 64 0\<rparr>)) \<and>
   fst (projl (fixed_role_encode_input [7 \<mapsto> [1, 0, 0, 0, 0, 0, 1, 1]] 3
          ((new_participant ''1'' [''2''] (\<lambda>k. False))
             \<lparr>is_message_sender := True, message_input := replicate 64 0\<rparr>))) = ValueError"
  using fixed_role_encode_input_check [of 3
      "(new_participant ''1'' [''2''] (\<lambda>k. False))
         \<lparr>is_message_sender := True, message_input := replicate 64 0\<rparr>"
      11 7 "[7 \<mapsto> [1, 0, 0, 0, 0, 0, 1, 1]]" "[1, 0, 0, 0, 0, 0, 1, 1]"]
  by (simp add: find_d_and_gamma_3_64 encoded_length_3_64 fixed_role_bit_count_def
      new_participant_def is_bit_def list_all_iff)

text \<open>
  C5, amended: \<^verbatim>\<open>execute_message_transmission\<close> calls the fixed-role transmission with
  \<^verbatim>\<open>bit_count\<close> equal to the field \<^verbatim>\<open>encoded_message_length\<close> (99 after \<^verbatim>\<open>__init__\<close>), whatever
  \<open>beta\<close> is; 99 is the encoded length for \<open>beta = 5\<close> and a message of 64 bits. For a sender
  with a message of 64 bits and \<open>beta \<ge> 1\<close> the check of the codeword's length succeeds
  exactly when the encoded length of \<open>(beta, 64)\<close> is the value of the field, and the codeword
  then has \<^verbatim>\<open>bit_count\<close> bits; otherwise the sender raises \<^verbatim>\<open>ValueError\<close>.
\<close>

theorem bit_count_is_the_field:
  assumes "1 \<le> beta"
    and "is_message_sender p"
    and "list_all is_bit (message_input p)"
    and "length (message_input p) = 64"
    and "find_d_and_gamma beta 64 = (d, gamma)"
    and "tbl gamma = Some b_binary"
    and "list_all is_bit b_binary"
    and "length b_binary = nat gamma + 1"
    and "hd b_binary = 1"
  shows "fixed_role_bit_count beta p = encoded_message_length p \<and>
         encoded_message_length (new_participant nid peers src) = 99 \<and>
         encoded_length 5 64 = 99 \<and>
         (encoded_length beta 64 = int (encoded_message_length p) \<longrightarrow>
            (\<exists>q. fixed_role_encode_input tbl beta p = Inr q \<and>
                 length (message_amdc_encoded_input q) = fixed_role_bit_count beta p)) \<and>
         (encoded_length beta 64 \<noteq> int (encoded_message_length p) \<longrightarrow>
            isl (fixed_role_encode_input tbl beta p) \<and>
            fst (projl (fixed_role_encode_input tbl beta p)) = ValueError)"
  using fixed_role_encode_input_check [of beta p d gamma tbl b_binary] assms
  by (simp add: fixed_role_bit_count_def new_participant_def encoded_length_5_64)

theorem bit_count_is_the_field_witness:
  "\<exists>q. fixed_role_encode_input [9 \<mapsto> [1, 0, 0, 0, 0, 1, 0, 0, 0, 1]] 5
          ((new_participant ''1'' [''2''] (\<lambda>k. False))
             \<lparr>is_message_sender := True, message_input := replicate 64 0\<rparr>) = Inr q \<and>
        length (message_amdc_encoded_input q) = 99"
  using bit_count_is_the_field [of 5
      "(new_participant ''1'' [''2''] (\<lambda>k. False))
         \<lparr>is_message_sender := True, message_input := replicate 64 0\<rparr>"
      9 9 "[9 \<mapsto> [1, 0, 0, 0, 0, 1, 0, 0, 0, 1]]" "[1, 0, 0, 0, 0, 1, 0, 0, 0, 1]"]
  by (simp add: find_d_and_gamma_5_64 encoded_length_5_64 fixed_role_bit_count_def
      new_participant_def is_bit_def list_all_iff)

section \<open>The participants of a network, in lockstep\<close>

text \<open>
  Every participant runs the same protocol code in a process of its own and stops only in
  \<^verbatim>\<open>wait_while_receiving\<close>. The model runs the participants of a network side by side: all
  of them execute the code up to their next wait, the transport delivers what they have
  sent, and every participant then finds its wait satisfied or not. A run ends in a
  \<open>failure\<close> when a participant cannot go on: \<open>Blocked i\<close>, participant \<open>i\<close> waits for a list
  to reach a length it does not have when every message sent has arrived; \<open>Raised i e\<close>,
  participant \<open>i\<close> raises \<open>e\<close>; \<open>Never_returns i\<close>, the sampling loop of \<open>i\<close> does not end;
  \<open>Out_of_step\<close>, the participants leave a loop or a branch at different points, which
  a run in lockstep does not follow any further. The order in which the messages of one
  delivery enter a list is the order of the senders in the network; the protocols only
  take the exclusive or and the number of the entries.
\<close>

datatype failure = Blocked string | Raised string py_exception | Never_returns string | Out_of_step

definition raised :: "(py_exception \<times> participant) + participant \<Rightarrow> failure + participant" where
  "raised r = (case r of Inl (e, q) \<Rightarrow> Inl (Raised (node_id q) e) | Inr q \<Rightarrow> Inr q)"

fun each :: "(participant \<Rightarrow> failure + participant) \<Rightarrow> net \<Rightarrow> failure + net" where
  "each f [] = Inr []"
| "each f (p # ps) =
     (case f p of
        Inl e \<Rightarrow> Inl e
      | Inr q \<Rightarrow> (case each f ps of Inl e \<Rightarrow> Inl e | Inr qs \<Rightarrow> Inr (q # qs)))"

subsection \<open>Transport\<close>

text \<open>
  A connection is known by the id of the node at its other end, and what is sent on it
  arrives at the participant of that id. \<^verbatim>\<open>send_to_nodes\<close> and \<^verbatim>\<open>send_to_node_by_id\<close> are the
  methods of \<^verbatim>\<open>Node\<close>.
\<close>

definition send_to_node :: "string \<Rightarrow> msg \<Rightarrow> participant \<Rightarrow> participant" where
  "send_to_node n data p = p\<lparr>outbox := outbox p @ [(n, data)]\<rparr>"

definition send_to_nodes :: "msg \<Rightarrow> participant \<Rightarrow> participant" where
  "send_to_nodes data p = foldl (\<lambda>q n. send_to_node n data q) p (all_nodes p)"

definition send_to_node_by_id :: "string \<Rightarrow> msg \<Rightarrow> participant \<Rightarrow> participant" where
  "send_to_node_by_id receiver_id data p =
     foldl (\<lambda>q n. send_to_node n data q) p (filter (\<lambda>n. n = receiver_id) (all_nodes p))"

definition sort_incoming_messages :: "msg \<Rightarrow> participant \<Rightarrow> participant" where
  "sort_incoming_messages message p =
     (case message of
        Node_id v \<Rightarrow> p\<lparr>all_node_ids := all_node_ids p @ [v]\<rparr>
      | Parity_shared_key v \<Rightarrow> p\<lparr>parity_shared_keys := parity_shared_keys p @ [v]\<rparr>
      | Parity_key_xor_result v \<Rightarrow>
          p\<lparr>parity_received_broadcast_values := parity_received_broadcast_values p @ [v]\<rparr>
      | Parity_finished v \<Rightarrow> p\<lparr>parity_finished := parity_finished p @ [v]\<rparr>
      | Veto_finished v \<Rightarrow> p\<lparr>veto_finished := veto_finished p @ [v]\<rparr>
      | Collision_detection_finished v \<Rightarrow>
          p\<lparr>collision_detection_finished := collision_detection_finished p @ [v]\<rparr>
      | Notification_finished v \<Rightarrow> p\<lparr>notification_finished := notification_finished p @ [v]\<rparr>
      | Fixed_message_finished v \<Rightarrow> p\<lparr>fixed_message_finished := fixed_message_finished p @ [v]\<rparr>
      | Message_finished v \<Rightarrow> p\<lparr>message_finished := message_finished p @ [v]\<rparr>)"

definition inbound :: "net \<Rightarrow> string \<Rightarrow> msg list" where
  "inbound ps i = map snd (filter (\<lambda>(n, data). n = i) (concat (map outbox ps)))"

definition deliver :: "net \<Rightarrow> net" where
  "deliver ps =
     map (\<lambda>p. foldl (\<lambda>q message. sort_incoming_messages message q)
                (p\<lparr>sent_log := sent_log p @ outbox p, outbox := []\<rparr>)
                (inbound ps (node_id p))) ps"

definition wait_while_receiving :: "nat \<Rightarrow> nat \<Rightarrow> participant \<Rightarrow> failure + participant" where
  "wait_while_receiving len amount_of_elements p =
     (if len \<noteq> amount_of_elements then Inl (Blocked (node_id p)) else Inr p)"

text \<open>
  The six methods \<^verbatim>\<open>send_\<dots>_finished\<close> have one shape: send the message to all nodes, wait
  until the list has as many entries as there are connections, empty the list.
\<close>

definition finished_barrier ::
    "msg \<Rightarrow> (participant \<Rightarrow> bool list) \<Rightarrow> (participant \<Rightarrow> participant) \<Rightarrow> net \<Rightarrow> failure + net" where
  "finished_barrier data finished emptied ps =
     (case each (\<lambda>p. wait_while_receiving (length (finished p)) (length (all_nodes p)) p)
             (deliver (map (send_to_nodes data) ps)) of
        Inl e \<Rightarrow> Inl e
      | Inr qs \<Rightarrow> Inr (map emptied qs))"

definition send_parity_finished :: "net \<Rightarrow> failure + net" where
  "send_parity_finished =
     finished_barrier (Parity_finished True) parity_finished (\<lambda>p. p\<lparr>parity_finished := []\<rparr>)"

definition send_veto_finished :: "net \<Rightarrow> failure + net" where
  "send_veto_finished =
     finished_barrier (Veto_finished True) veto_finished (\<lambda>p. p\<lparr>veto_finished := []\<rparr>)"

definition send_collision_detection_finished :: "net \<Rightarrow> failure + net" where
  "send_collision_detection_finished =
     finished_barrier (Collision_detection_finished True) collision_detection_finished
       (\<lambda>p. p\<lparr>collision_detection_finished := []\<rparr>)"

definition send_notification_finished :: "net \<Rightarrow> failure + net" where
  "send_notification_finished =
     finished_barrier (Notification_finished True) notification_finished
       (\<lambda>p. p\<lparr>notification_finished := []\<rparr>)"

definition send_fixed_message_finished :: "net \<Rightarrow> failure + net" where
  "send_fixed_message_finished =
     finished_barrier (Fixed_message_finished True) fixed_message_finished
       (\<lambda>p. p\<lparr>fixed_message_finished := []\<rparr>)"

definition send_message_finished :: "net \<Rightarrow> failure + net" where
  "send_message_finished =
     finished_barrier (Message_finished True) message_finished (\<lambda>p. p\<lparr>message_finished := []\<rparr>)"

subsection \<open>Parity\<close>

text \<open>
  \<^verbatim>\<open>create_bitstring\<close> draws \<open>number_of_participants\<close> bits again and again until the number of
  ones has the parity asked for; \<open>k\<close> counts the calls of \<^verbatim>\<open>randbits(1)\<close> made so far. A loop
  that never ends has the value \<open>None\<close>.
\<close>

partial_function (option) create_bitstring ::
    "(nat \<Rightarrow> bool) \<Rightarrow> nat \<Rightarrow> int \<Rightarrow> nat \<Rightarrow> (int list \<times> nat) option" where
  "create_bitstring src number_of_participants parity k =
     (let bitstring = map (\<lambda>i. if src (k + i) then 1 else 0) [0..<number_of_participants]
      in if int (count_list bitstring 1) mod 2 \<noteq> parity
         then create_bitstring src number_of_participants parity (k + number_of_participants)
         else Some (bitstring, k + number_of_participants))"

declare create_bitstring.simps [code]

text \<open>\<^verbatim>\<open>distribute_key_bits\<close> up to its wait.\<close>

definition distribute_key_bits :: "participant \<Rightarrow> failure + participant" where
  "distribute_key_bits p =
     (case create_bitstring (randbits_source p) (length (all_nodes p) + 1) (parity_input p)
             (randbits_count p) of
        None \<Rightarrow> Inl (Never_returns (node_id p))
      | Some (bitstring, k) \<Rightarrow>
          Inr (foldl (\<lambda>q (n, b). send_to_node n (Parity_shared_key b) q)
                 (p\<lparr>randbits_count := k,
                    parity_shared_keys := parity_shared_keys p @ [hd bitstring]\<rparr>)
                 (zip (all_nodes p) (tl bitstring))))"

definition exchange_key_bits :: "net \<Rightarrow> failure + net" where
  "exchange_key_bits ps =
     (case each distribute_key_bits ps of
        Inl e \<Rightarrow> Inl e
      | Inr qs \<Rightarrow>
          each (\<lambda>p. wait_while_receiving (length (parity_shared_keys p)) (length (all_nodes p) + 1) p)
            (deliver qs))"

definition calculate_parity_xor_key_result :: "participant \<Rightarrow> int" where
  "calculate_parity_xor_key_result p = xor_reduce (parity_shared_keys p)"

definition calculate_parity_result :: "participant \<Rightarrow> participant" where
  "calculate_parity_result p =
     p\<lparr>parity_result := xor_reduce (parity_received_broadcast_values p)\<rparr>"

text \<open>
  \<^verbatim>\<open>calculate_and_broadcast_keys\<close>: the participants that do not broadcast last send and
  wait; a participant that broadcasts last waits for their values first and sends then.
\<close>

definition broadcast_key :: "participant \<Rightarrow> participant" where
  "broadcast_key p = send_to_nodes (Parity_key_xor_result (calculate_parity_xor_key_result p)) p"

definition wait_for_broadcasts :: "participant \<Rightarrow> failure + participant" where
  "wait_for_broadcasts p =
     wait_while_receiving (length (parity_received_broadcast_values p)) (length (all_nodes p)) p"

definition calculate_and_broadcast_keys :: "net \<Rightarrow> failure + net" where
  "calculate_and_broadcast_keys ps =
     (case each (\<lambda>p. if parity_broadcasts_last p then wait_for_broadcasts p else Inr p)
             (deliver (map (\<lambda>p. if parity_broadcasts_last p then p else broadcast_key p) ps)) of
        Inl e \<Rightarrow> Inl e
      | Inr qs \<Rightarrow>
          (case each (\<lambda>p. if parity_broadcasts_last p then Inr p else wait_for_broadcasts p)
                  (deliver (map (\<lambda>p. if parity_broadcasts_last p then broadcast_key p else p) qs)) of
             Inl e \<Rightarrow> Inl e
           | Inr rs \<Rightarrow>
               Inr (map (\<lambda>p. p\<lparr>parity_received_broadcast_values :=
                                  parity_received_broadcast_values p
                                    @ [calculate_parity_xor_key_result p]\<rparr>) rs)))"

definition execute_parity :: "net \<Rightarrow> failure + net" where
  "execute_parity ps =
     (case exchange_key_bits ps of
        Inl e \<Rightarrow> Inl e
      | Inr qs \<Rightarrow>
          (case calculate_and_broadcast_keys qs of
             Inl e \<Rightarrow> Inl e
           | Inr rs \<Rightarrow>
               send_parity_finished
                 (map (\<lambda>p. (calculate_parity_result p)
                              \<lparr>parity_shared_keys := [],
                               parity_received_broadcast_values := []\<rparr>) rs)))"

subsection \<open>Veto\<close>

text \<open>The value of one call of \<^verbatim>\<open>randbits(1)\<close> becomes the parity input.\<close>

definition set_parity_input_randbits :: "participant \<Rightarrow> participant" where
  "set_parity_input_randbits p =
     p\<lparr>parity_input := randbits_next p 0, randbits_count := Suc (randbits_count p)\<rparr>"

definition set_parity_input_by_veto_input :: "participant \<Rightarrow> participant" where
  "set_parity_input_by_veto_input p =
     (if veto_input p = 0 then p\<lparr>parity_input := 0\<rparr> else set_parity_input_randbits p)"

text \<open>
  The inner loop of \<^verbatim>\<open>execute_veto\<close>, \<open>i\<close> rounds to go. The result says whether the
  participants have left the loop through the \<^verbatim>\<open>return\<close> (all of them see the result 1) or
  at its end.
\<close>

fun veto_rounds :: "nat \<Rightarrow> net \<Rightarrow> failure + (bool \<times> net)" where
  "veto_rounds 0 ps = Inr (False, ps)"
| "veto_rounds (Suc i) ps =
     (case execute_parity (map set_parity_input_by_veto_input ps) of
        Inl e \<Rightarrow> Inl e
      | Inr qs \<Rightarrow>
          (if list_all (\<lambda>p. parity_result p = 1) qs
           then Inr (True, map (\<lambda>p. p\<lparr>veto_result := parity_result p\<rparr>) qs)
           else if list_all (\<lambda>p. parity_result p \<noteq> 1) qs
           then veto_rounds i (map (\<lambda>p. p\<lparr>veto_result := parity_result p\<rparr>) qs)
           else Inl Out_of_step))"

text \<open>
  The outer loop, over the positions \<open>j\<close> of \<^verbatim>\<open>all_node_ids\<close>; every participant reads its own
  list.
\<close>

fun veto_last_broadcasters :: "int \<Rightarrow> nat list \<Rightarrow> net \<Rightarrow> failure + net" where
  "veto_last_broadcasters veto_security [] ps = send_veto_finished ps"
| "veto_last_broadcasters veto_security (j # js) ps =
     (case veto_rounds (nat veto_security)
             (map (\<lambda>p. if all_node_ids p ! j = node_id p then p\<lparr>parity_broadcasts_last := True\<rparr>
                        else p) ps) of
        Inl e \<Rightarrow> Inl e
      | Inr (aborted, qs) \<Rightarrow>
          (if aborted then send_veto_finished (map (\<lambda>p. p\<lparr>parity_broadcasts_last := False\<rparr>) qs)
           else veto_last_broadcasters veto_security js
                  (map (\<lambda>p. p\<lparr>parity_broadcasts_last := False\<rparr>) qs)))"

definition execute_veto :: "int \<Rightarrow> net \<Rightarrow> failure + net" where
  "execute_veto veto_security ps =
     (case ps of
        [] \<Rightarrow> Inr []
      | p # _ \<Rightarrow>
          if list_all (\<lambda>q. length (all_node_ids q) = length (all_node_ids p)) ps
          then veto_last_broadcasters veto_security [0..<length (all_node_ids p)] ps
          else Inl Out_of_step)"

subsection \<open>Collision detection\<close>

definition collision_detection_round_a_input :: "participant \<Rightarrow> participant" where
  "collision_detection_round_a_input p =
     (let q = p\<lparr>collision_detection_input := (if is_message_sender p then 1 else 0)\<rparr>
      in q\<lparr>veto_input := collision_detection_input q\<rparr>)"

definition collision_detection_round_b_input :: "participant \<Rightarrow> participant" where
  "collision_detection_round_b_input p =
     (if veto_input p = 1 \<and> parity_input p = 0 then p\<lparr>veto_input := 1\<rparr>
      else p\<lparr>veto_input := 0\<rparr>)"

text \<open>Round A: the veto on the collision detection inputs.\<close>

definition collision_detection_round_a :: "int \<Rightarrow> net \<Rightarrow> failure + net" where
  "collision_detection_round_a collision_detection_security ps =
     execute_veto collision_detection_security (map collision_detection_round_a_input ps)"

definition execute_collision_detection :: "int \<Rightarrow> net \<Rightarrow> failure + net" where
  "execute_collision_detection collision_detection_security ps =
     (case collision_detection_round_a collision_detection_security ps of
        Inl e \<Rightarrow> Inl e
      | Inr qs \<Rightarrow>
          if list_all (\<lambda>p. veto_result p = 0) qs
          then Inr (map (\<lambda>p. p\<lparr>collision_detection_result := 0\<rparr>) qs)
          else if list_all (\<lambda>p. veto_result p \<noteq> 0) qs
          then
            (case execute_veto collision_detection_security
                    (map collision_detection_round_b_input qs) of
               Inl e \<Rightarrow> Inl e
             | Inr rs \<Rightarrow>
                 send_collision_detection_finished
                   (map (\<lambda>p. p\<lparr>collision_detection_result := (if veto_result p = 0 then 1 else 2)\<rparr>)
                      rs))
          else Inl Out_of_step)"

subsection \<open>Notification\<close>

definition set_notification_parity_by_notification_input :: "string \<Rightarrow> participant \<Rightarrow> participant" where
  "set_notification_parity_by_notification_input s p =
     (if s = notification_input p then set_parity_input_randbits p else p\<lparr>parity_input := 0\<rparr>)"

definition set_notification_result_by_parity_result :: "participant \<Rightarrow> participant" where
  "set_notification_result_by_parity_result p =
     p\<lparr>notification_result := notification_result p OR parity_result p\<rparr>"

text \<open>
  The spectator of round \<open>j\<close> of \<^verbatim>\<open>itertools.product(self.all_node_ids, range(1, security + 1))\<close>,
  as the participant reads it from its own list.
\<close>

definition spectator :: "int \<Rightarrow> nat \<Rightarrow> participant \<Rightarrow> string" where
  "spectator notification_security j p = all_node_ids p ! (j div nat notification_security)"

definition notification_parity_round :: "int \<Rightarrow> nat \<Rightarrow> net \<Rightarrow> failure + net" where
  "notification_parity_round notification_security j ps =
     (case exchange_key_bits
             (map (\<lambda>p. set_notification_parity_by_notification_input
                          (spectator notification_security j p) p) ps) of
        Inl e \<Rightarrow> Inl e
      | Inr qs \<Rightarrow>
          (case each (\<lambda>p. if spectator notification_security j p = node_id p
                           then wait_for_broadcasts p else Inr p)
                  (deliver
                     (map (\<lambda>p. if spectator notification_security j p = node_id p then p
                                else send_to_node_by_id (spectator notification_security j p)
                                       (Parity_key_xor_result (calculate_parity_xor_key_result p)) p)
                        qs)) of
             Inl e \<Rightarrow> Inl e
           | Inr rs \<Rightarrow>
               send_parity_finished
                 (map (\<lambda>p. (if spectator notification_security j p = node_id p
                             then set_notification_result_by_parity_result
                                    (calculate_parity_result
                                       (p\<lparr>parity_received_broadcast_values :=
                                            parity_received_broadcast_values p
                                              @ [calculate_parity_xor_key_result p]\<rparr>))
                             else p)
                              \<lparr>parity_shared_keys := [], parity_received_broadcast_values := [],
                               parity_input := 0\<rparr>) rs)))"

fun notification_parity_rounds :: "int \<Rightarrow> nat list \<Rightarrow> net \<Rightarrow> failure + net" where
  "notification_parity_rounds notification_security [] ps = Inr ps"
| "notification_parity_rounds notification_security (j # js) ps =
     (case notification_parity_round notification_security j ps of
        Inl e \<Rightarrow> Inl e
      | Inr qs \<Rightarrow> notification_parity_rounds notification_security js qs)"

definition execute_notification_parity :: "int \<Rightarrow> net \<Rightarrow> failure + net" where
  "execute_notification_parity notification_security ps =
     (case ps of
        [] \<Rightarrow> Inr []
      | p # _ \<Rightarrow>
          if list_all (\<lambda>q. length (all_node_ids q) = length (all_node_ids p)) ps
          then notification_parity_rounds notification_security
                 [0..<length (all_node_ids p) * nat notification_security] ps
          else Inl Out_of_step)"

definition execute_notification :: "int \<Rightarrow> net \<Rightarrow> failure + net" where
  "execute_notification notification_security ps =
     (case execute_notification_parity notification_security ps of
        Inl e \<Rightarrow> Inl e
      | Inr qs \<Rightarrow> send_notification_finished qs)"

subsection \<open>Fixed-role message transmission\<close>

definition create_one_time_pad :: "nat \<Rightarrow> participant \<Rightarrow> participant" where
  "create_one_time_pad bit_count p =
     (if is_message_receiver p
      then p\<lparr>one_time_pad := map (randbits_next p) [0..<bit_count],
             randbits_count := randbits_count p + bit_count\<rparr>
      else p)"

definition set_parity_input_by_message_role ::
    "nat \<Rightarrow> participant \<Rightarrow> (py_exception \<times> participant) + participant" where
  "set_parity_input_by_message_role round_of_protocol p =
     (if is_message_sender p then
        (if round_of_protocol < length (message_amdc_encoded_input p)
         then set_parity_input (message_amdc_encoded_input p ! round_of_protocol) p
         else Inl (IndexError, p))
      else if is_message_receiver p then
        (if round_of_protocol < length (one_time_pad p)
         then set_parity_input (one_time_pad p ! round_of_protocol) p
         else Inl (IndexError, p))
      else Inr p)"

definition add_to_received_message ::
    "nat \<Rightarrow> participant \<Rightarrow> (py_exception \<times> participant) + participant" where
  "add_to_received_message round_of_protocol p =
     (if is_message_receiver p then
        (if round_of_protocol < length (one_time_pad p)
         then Inr (p\<lparr>message_amdc_encoded_received_message :=
                        message_amdc_encoded_received_message p
                          @ [parity_result p XOR one_time_pad p ! round_of_protocol]\<rparr>)
         else Inl (IndexError, p))
      else Inr (p\<lparr>message_amdc_encoded_received_message :=
                     message_amdc_encoded_received_message p @ [parity_result p]\<rparr>))"

fun fixed_role_rounds :: "nat list \<Rightarrow> net \<Rightarrow> failure + net" where
  "fixed_role_rounds [] ps = Inr ps"
| "fixed_role_rounds (r # rs) ps =
     (case each (\<lambda>p. raised (set_parity_input_by_message_role r p)) ps of
        Inl e \<Rightarrow> Inl e
      | Inr qs \<Rightarrow>
          (case execute_parity qs of
             Inl e \<Rightarrow> Inl e
           | Inr qs' \<Rightarrow>
               (case each (\<lambda>p. raised (add_to_received_message r p)) qs' of
                  Inl e \<Rightarrow> Inl e
                | Inr qs'' \<Rightarrow> fixed_role_rounds rs qs'')))"

text \<open>The receiver decodes what it has received and sets its veto input by the flag.\<close>

definition fixed_role_decode ::
    "(int \<rightharpoonup> int list) \<Rightarrow> int \<Rightarrow> participant \<Rightarrow> (py_exception \<times> participant) + participant" where
  "fixed_role_decode tbl security p =
     (if is_message_receiver p then
        (case amdc_decode_message tbl (message_amdc_encoded_received_message p)
                (message_length p) security of
           Inl e \<Rightarrow> Inl (Amdc_failure e, p)
         | Inr (message_correct, decoded) \<Rightarrow>
             Inr (p\<lparr>message_amdc_decoded_received_message := decoded,
                    veto_input := (if \<not> message_correct then 1 else 0)\<rparr>))
      else Inr (p\<lparr>veto_input := 0,
                  message_amdc_decoded_received_message :=
                    message_amdc_encoded_received_message p\<rparr>))"

text \<open>
  \<^verbatim>\<open>received_message_to_string\<close>: \<^verbatim>\<open>str\<close> of every element, the texts joined and cut into
  pieces of 8 characters, each piece read by \<^verbatim>\<open>int(_, 2)\<close> and turned into a character by
  \<^verbatim>\<open>chr\<close>. A piece that is not a binary numeral, or is one below zero, raises \<^verbatim>\<open>ValueError\<close>.
\<close>

fun str_nat :: "nat \<Rightarrow> string" where
  "str_nat n =
     (if n < 10 then [char_of (48 + n)] else str_nat (n div 10) @ [char_of (48 + n mod 10)])"

declare str_nat.simps [simp del]

definition str_int :: "int \<Rightarrow> string" where
  "str_int i = (if i < 0 then CHR ''-'' # str_nat (nat (- i)) else str_nat (nat i))"

definition int_base_2 :: "string \<Rightarrow> int option" where
  "int_base_2 s =
     (let negative = (s \<noteq> [] \<and> hd s = CHR ''-'');
          digits = (if negative then tl s else s)
      in if digits = [] \<or> \<not> list_all (\<lambda>c. c = CHR ''0'' \<or> c = CHR ''1'') digits then None
         else
           let v = foldl (\<lambda>a c. 2 * a + (if c = CHR ''1'' then 1 else 0)) 0 digits
           in Some (if negative then - v else v))"

definition received_message_to_string ::
    "participant \<Rightarrow> (py_exception \<times> participant) + participant" where
  "received_message_to_string p =
     (let list_to_str = concat (map str_int (message_amdc_decoded_received_message p));
          codes = map (\<lambda>i. int_base_2 (take 8 (drop (8 * i) list_to_str)))
                    [0..<(length list_to_str + 7) div 8]
      in if list_all (\<lambda>c. case c of None \<Rightarrow> False | Some v \<Rightarrow> 0 \<le> v) codes
         then Inr (p\<lparr>message_received_str := map (\<lambda>c. char_of (nat (the c))) codes\<rparr>)
         else Inl (ValueError, p))"

definition execute_fixed_role_message_transmission ::
    "(int \<rightharpoonup> int list) \<Rightarrow> int \<Rightarrow> nat \<Rightarrow> net \<Rightarrow> failure + net" where
  "execute_fixed_role_message_transmission tbl security bit_count ps =
     (case each (\<lambda>p. raised (fixed_role_encode_input tbl security
                                (create_one_time_pad bit_count p))) ps of
        Inl e \<Rightarrow> Inl e
      | Inr ps1 \<Rightarrow>
     (case fixed_role_rounds [0..<bit_count] ps1 of
        Inl e \<Rightarrow> Inl e
      | Inr ps2 \<Rightarrow>
     (case each (\<lambda>p. raised (fixed_role_decode tbl security p)) ps2 of
        Inl e \<Rightarrow> Inl e
      | Inr ps3 \<Rightarrow>
     (case execute_veto security ps3 of
        Inl e \<Rightarrow> Inl e
      | Inr ps4 \<Rightarrow>
     (case each (\<lambda>p. raised (received_message_to_string p)) ps4 of
        Inl e \<Rightarrow> Inl e
      | Inr ps5 \<Rightarrow> send_fixed_message_finished ps5)))))"

subsection \<open>Message transmission\<close>

definition create_order_in_all_node_ids :: "net \<Rightarrow> failure + net" where
  "create_order_in_all_node_ids ps =
     (case each (\<lambda>p. wait_while_receiving (length (all_node_ids p)) (length (all_nodes p)) p)
             (deliver (map (\<lambda>p. send_to_nodes (Node_id (node_id p)) p) ps)) of
        Inl e \<Rightarrow> Inl e
      | Inr qs \<Rightarrow>
          each (\<lambda>p. if node_id p \<in> set (all_node_ids p) then Inl (Raised (node_id p) NameError)
                     else Inr (p\<lparr>all_node_ids := sort (all_node_ids p @ [node_id p])\<rparr>)) qs)"

text \<open>
  \<^verbatim>\<open>execute_message_transmission\<close>. After the collision detection a participant returns on
  the results 0 and 2 (\<^verbatim>\<open>match\<close> has no other case that returns); \<^verbatim>\<open>clear_all\<close> is not called,
  the call is a comment in the source.
\<close>

definition execute_message_transmission :: "(int \<rightharpoonup> int list) \<Rightarrow> int \<Rightarrow> net \<Rightarrow> failure + net" where
  "execute_message_transmission tbl security ps =
     (case create_order_in_all_node_ids ps of
        Inl e \<Rightarrow> Inl e
      | Inr ps1 \<Rightarrow>
     (case execute_collision_detection security
             (map (\<lambda>p. if notification_input p \<noteq> [] then p\<lparr>is_message_sender := True\<rparr> else p)
                ps1) of
        Inl e \<Rightarrow> Inl e
      | Inr ps2 \<Rightarrow>
          if list_all (\<lambda>p. collision_detection_result p = 0 \<or> collision_detection_result p = 2) ps2
          then Inr (map (\<lambda>p. if collision_detection_result p = 2
                              then p\<lparr>collision_detection_result := 0\<rparr> else p) ps2)
          else if list_all (\<lambda>p. collision_detection_result p \<noteq> 0
                                  \<and> collision_detection_result p \<noteq> 2) ps2
          then
            (case execute_notification security ps2 of
               Inl e \<Rightarrow> Inl e
             | Inr ps3 \<Rightarrow>
                 (case ps3 of
                    [] \<Rightarrow> Inr []
                  | p # _ \<Rightarrow>
                      if list_all (\<lambda>q. fixed_role_bit_count security q
                                         = fixed_role_bit_count security p) ps3
                      then
                        (case execute_fixed_role_message_transmission tbl security
                                (fixed_role_bit_count security p)
                                (map (\<lambda>q. if notification_result q = 1
                                           then q\<lparr>is_message_receiver := True\<rparr> else q) ps3) of
                           Inl e \<Rightarrow> Inl e
                         | Inr ps4 \<Rightarrow> send_message_finished ps4)
                      else Inl Out_of_step))
          else Inl Out_of_step))"

section \<open>Runs of two participants\<close>

lemma create_bitstring_stop:
  "int (count_list (map (\<lambda>i. if src (k + i) then 1 else 0) [0..<n]) (1::int)) mod 2 = parity \<Longrightarrow>
   create_bitstring src n parity k = Some (map (\<lambda>i. if src (k + i) then 1 else 0) [0..<n], k + n)"
  by (subst create_bitstring.simps) (auto simp: Let_def)

lemmas run_defs = execute_message_transmission_def create_order_in_all_node_ids_def
  execute_collision_detection_def collision_detection_round_a_def execute_veto_def
  execute_parity_def exchange_key_bits_def
  distribute_key_bits_def calculate_and_broadcast_keys_def broadcast_key_def wait_for_broadcasts_def
  calculate_parity_xor_key_result_def calculate_parity_result_def
  send_parity_finished_def send_veto_finished_def send_collision_detection_finished_def
  send_message_finished_def finished_barrier_def
  collision_detection_round_a_input_def collision_detection_round_b_input_def
  set_parity_input_by_veto_input_def set_parity_input_randbits_def randbits_next_def
  deliver_def inbound_def send_to_nodes_def send_to_node_def sort_incoming_messages_def
  wait_while_receiving_def xor_reduce_def new_participant_def create_bitstring_stop upt_rec

text \<open>
  Two connected participants \<^verbatim>\<open>1\<close> and \<^verbatim>\<open>2\<close> right after \<^verbatim>\<open>__init__\<close>; neither has a
  notification input, so nobody wants to send. All random bits are 0.
\<close>

definition two_idle :: net where
  "two_idle =
     [new_participant ''1'' [''2''] (\<lambda>k. False), new_participant ''2'' [''1''] (\<lambda>k. False)]"

lemma idle_run:
  "execute_message_transmission Map.empty 1 two_idle =
     Inr [(new_participant ''1'' [''2''] (\<lambda>k. False))
            \<lparr>all_node_ids := [''1'', ''2''], randbits_count := 4,
             sent_log := [(''2'', Node_id ''1''), (''2'', Parity_shared_key 0),
               (''2'', Parity_key_xor_result 0), (''2'', Parity_finished True),
               (''2'', Parity_shared_key 0), (''2'', Parity_key_xor_result 0),
               (''2'', Parity_finished True), (''2'', Veto_finished True)]\<rparr>,
          (new_participant ''2'' [''1''] (\<lambda>k. False))
            \<lparr>all_node_ids := [''1'', ''2''], randbits_count := 4,
             sent_log := [(''1'', Node_id ''2''), (''1'', Parity_shared_key 0),
               (''1'', Parity_key_xor_result 0), (''1'', Parity_finished True),
               (''1'', Parity_shared_key 0), (''1'', Parity_key_xor_result 0),
               (''1'', Parity_finished True), (''1'', Veto_finished True)]\<rparr>]"
  by (simp add: run_defs two_idle_def)

text \<open>
  C3: every subprotocol ends, on every path, with the broadcast of its \<^verbatim>\<open>\<dots>_finished\<close>
  message and the wait for it. When nobody wants to send, round A of the collision
  detection gives 0 and \<^verbatim>\<open>execute_collision_detection\<close> returns at once, and so does
  \<^verbatim>\<open>execute_message_transmission\<close>: both participants return with the result 0, and the
  last message either of them has sent is \<^verbatim>\<open>veto_finished\<close>; no \<^verbatim>\<open>collision_detection_finished\<close>
  and no \<^verbatim>\<open>message_finished\<close> is ever sent.
\<close>

theorem early_return_skips_barriers:
  "map_sum id (map (\<lambda>p. (collision_detection_result p, map snd (sent_log p))))
     (execute_message_transmission Map.empty 1 two_idle) =
   Inr [(0, [Node_id ''1'', Parity_shared_key 0, Parity_key_xor_result 0, Parity_finished True,
             Parity_shared_key 0, Parity_key_xor_result 0, Parity_finished True,
             Veto_finished True]),
        (0, [Node_id ''2'', Parity_shared_key 0, Parity_key_xor_result 0, Parity_finished True,
             Parity_shared_key 0, Parity_key_xor_result 0, Parity_finished True,
             Veto_finished True])]"
  by (simp add: idle_run new_participant_def)






section \<open>What a veto leaves unchanged\<close>
























end
